theory Spec2Isabelle
  imports Main
begin

section \<open>SLIM: data model\<close>

text \<open>
  A SLIM value (\<^verbatim>\<open>SlimValue\<close> in \<^verbatim>\<open>types.ts\<close>) is null, undefined, a boolean, a number,
  a string, an array of values or an object. Objects are association lists in insertion
  order, as \<^verbatim>\<open>Object.entries\<close> lists them (keys are taken to be distinct and not array
  indices, which JavaScript would list first).

  Numbers: \<open>NaN\<close>, the two infinities, and \<open>Fin i\<close> for the double of integer value
  \<open>i\<close>, meant for \<open>\<bar>i\<bar> \<le> 2^53\<close>, where \<^verbatim>\<open>String(i)\<close> is the decimal numeral. Doubles
  with a fraction are outside this model.

  Strings are lists of \<^typ>\<open>char\<close>: code units below 256. Every character the format
  treats specially is ASCII.
\<close>

datatype jsnum = NaN | PosInf | NegInf | Fin int

datatype slimValue =
    VNull
  | VUndef
  | VBool bool
  | VNum jsnum
  | VStr string
  | VArr "slimValue list"
  | VObj "(string \<times> slimValue) list"

record encodeOptions =
  maxDepth :: int
  tableThreshold :: int
  pretty :: bool

definition DEFAULT_OPTIONS :: encodeOptions where
  "DEFAULT_OPTIONS = \<lparr>maxDepth = 15, tableThreshold = 1, pretty = False\<rparr>"

definition dquote :: char where "dquote = CHR 0x22"
definition newline :: char where "newline = CHR 0x0A"
definition backslash :: char where "backslash = CHR 0x5C"

fun natToString :: "nat \<Rightarrow> string" where
  "natToString n = (if n < 10 then [''0123456789'' ! n]
                    else natToString (n div 10) @ [''0123456789'' ! (n mod 10)])"

declare natToString.simps [simp del]

definition intToString :: "int \<Rightarrow> string" where
  "intToString i = (if i < 0 then CHR ''-'' # natToString (nat (- i)) else natToString (nat i))"

fun numToString :: "jsnum \<Rightarrow> string" where
  "numToString NaN = ''NaN''"
| "numToString PosInf = ''Infinity''"
| "numToString NegInf = ''-Infinity''"
| "numToString (Fin i) = intToString i"

fun join :: "string \<Rightarrow> string list \<Rightarrow> string" where
  "join sep [] = []"
| "join sep [x] = x"
| "join sep (x # y # ys) = x @ sep @ join sep (y # ys)"

fun jsString :: "slimValue \<Rightarrow> string" where
  "jsString VNull = ''null''"
| "jsString VUndef = ''undefined''"
| "jsString (VBool b) = (if b then ''true'' else ''false'')"
| "jsString (VNum n) = numToString n"
| "jsString (VStr s) = s"
| "jsString (VArr xs) =
     join '','' (map (\<lambda>x. if x = VNull \<or> x = VUndef then [] else jsString x) xs)"
| "jsString (VObj kvs) = ''[object Object]''"


definition testChars :: "string \<Rightarrow> string \<Rightarrow> bool" where
  "testChars cls s = list_ex (\<lambda>c. c \<in> set cls) s"

definition STRUCTURAL_CHARS :: string where
  "STRUCTURAL_CHARS = '',;'' @ [newline] @ ''|{}[]'' @ [dquote] @ ''#?!*@''"

definition KEY_SPECIAL_CHARS :: string where
  "KEY_SPECIAL_CHARS = '',:{}[]''"

definition isWhiteSpace :: "char \<Rightarrow> bool" where
  "isWhiteSpace c = (c \<in> set [CHR 0x09, CHR 0x0A, CHR 0x0B, CHR 0x0C, CHR 0x0D, CHR 0x20, CHR 0xA0])"

definition trim :: "string \<Rightarrow> string" where
  "trim s = rev (dropWhile isWhiteSpace (rev (dropWhile isWhiteSpace s)))"

definition replaceAll :: "char \<Rightarrow> string \<Rightarrow> string \<Rightarrow> string" where
  "replaceAll c r s = concat (map (\<lambda>x. if x = c then r else [x]) s)"

definition SLIM_NULL :: string where "SLIM_NULL = ''!null''"
definition SLIM_UNDEFINED :: string where "SLIM_UNDEFINED = ''!undef''"
definition SLIM_DEEP :: string where "SLIM_DEEP = ''!DEEP''"
definition SLIM_TRUE :: string where "SLIM_TRUE = ''?T''"
definition SLIM_FALSE :: string where "SLIM_FALSE = ''?F''"
definition SLIM_NAN :: string where "SLIM_NAN = ''#NaN''"
definition SLIM_INF :: string where "SLIM_INF = ''#Inf''"
definition SLIM_NEG_INF :: string where "SLIM_NEG_INF = ''#-Inf''"

fun isNumber :: "slimValue \<Rightarrow> bool" where
  "isNumber (VNum n) = True" | "isNumber v = False"
fun isString :: "slimValue \<Rightarrow> bool" where
  "isString (VStr s) = True" | "isString v = False"
fun isBoolean :: "slimValue \<Rightarrow> bool" where
  "isBoolean (VBool b) = True" | "isBoolean v = False"
fun isArray :: "slimValue \<Rightarrow> bool" where
  "isArray (VArr xs) = True" | "isArray v = False"
fun isPlainObject :: "slimValue \<Rightarrow> bool" where
  "isPlainObject (VObj kvs) = True" | "isPlainObject v = False"

fun typeofValue :: "slimValue \<Rightarrow> string" where
  "typeofValue VNull = ''object''"
| "typeofValue VUndef = ''undefined''"
| "typeofValue (VBool b) = ''boolean''"
| "typeofValue (VNum n) = ''number''"
| "typeofValue (VStr s) = ''string''"
| "typeofValue (VArr xs) = ''object''"
| "typeofValue (VObj kvs) = ''object''"

fun arrayItems :: "slimValue \<Rightarrow> slimValue list" where
  "arrayItems (VArr xs) = xs" | "arrayItems v = []"
fun objectEntries :: "slimValue \<Rightarrow> (string \<times> slimValue) list" where
  "objectEntries (VObj kvs) = kvs" | "objectEntries v = []"

fun truthy :: "slimValue \<Rightarrow> bool" where
  "truthy VNull = False"
| "truthy VUndef = False"
| "truthy (VBool b) = b"
| "truthy (VNum n) = (n \<noteq> NaN \<and> n \<noteq> Fin 0)"
| "truthy (VStr s) = (s \<noteq> [])"
| "truthy v = True"

definition getProp :: "(string \<times> slimValue) list \<Rightarrow> string \<Rightarrow> slimValue" where
  "getProp obj key = (case map_of obj key of None \<Rightarrow> VUndef | Some v \<Rightarrow> v)"

definition uniqueKeys :: "string list \<Rightarrow> string list" where
  "uniqueKeys ks = foldl (\<lambda>seen k. if k \<in> set seen then seen else seen @ [k]) [] ks"

definition startsWith :: "string \<Rightarrow> string \<Rightarrow> bool" where
  "startsWith s p = (take (length p) s = p)"

definition encodeNumber :: "jsnum \<Rightarrow> string" where
  "encodeNumber num = (if num = NaN then SLIM_NAN
     else if num = PosInf \<or> num = NegInf then (if num = PosInf then SLIM_INF else SLIM_NEG_INF)
     else ''#'' @ numToString num)"

definition encodeString :: "string \<Rightarrow> string" where
  "encodeString str =
     (if str = [] then [dquote, dquote]
      else let needsQuoting = (testChars STRUCTURAL_CHARS str \<or> str \<noteq> trim str) in
        if needsQuoting then
          (let escaped = replaceAll newline [backslash, CHR ''n''] (replaceAll dquote [dquote, dquote] str)
           in [dquote] @ escaped @ [dquote])
        else str)"

definition isMatrix :: "slimValue list \<Rightarrow> bool" where
  "isMatrix arr = list_all (\<lambda>row. isArray row \<and> list_all isNumber (arrayItems row)) arr"

definition encodeMatrix :: "slimValue list \<Rightarrow> string" where
  "encodeMatrix matrix =
     (let rows = map (\<lambda>row. join '','' (map jsString (arrayItems row))) matrix
      in ''*['' @ join '';'' rows @ '']'')"

definition encodeInlineArray :: "slimValue list \<Rightarrow> string" where
  "encodeInlineArray arr =
     (if arr = [] then ''[]''
      else if list_all isNumber arr then join ''+'' (map jsString arr)
      else join ''+'' (map (\<lambda>x. let s = jsString x in
                if testChars ''+,'' s then [dquote] @ replaceAll dquote [dquote, dquote] s @ [dquote]
                else s) arr))"

definition columnType :: "(string \<times> slimValue) list list \<Rightarrow> string \<Rightarrow> string" where
  "columnType rows key =
     (let values = filter (\<lambda>v. v \<noteq> VUndef \<and> v \<noteq> VNull) (map (\<lambda>r. getProp r key) rows);
          t = (if values = [] then ''!''
               else if list_all isBoolean values then ''?''
               else if list_all isNumber values then ''#''
               else if list_all isArray values then ''@''
               else if list_all (\<lambda>v. typeofValue v = ''object'' \<and> \<not> isArray v) values then ''~''
               else ''$'')
      in if list_ex (\<lambda>r. getProp r key = VUndef \<or> getProp r key = VNull) rows then t @ ''!'' else t)"

definition quoteKey :: "string \<Rightarrow> string" where
  "quoteKey key = (if testChars KEY_SPECIAL_CHARS key
                   then [dquote] @ replaceAll dquote [dquote, dquote] key @ [dquote]
                   else key)"

lemma size_arr_elem [termination_simp]: "x \<in> set xs \<Longrightarrow> size x < Suc (size_list size xs)"
  by (induction xs) auto

lemma size_obj_elem [termination_simp]:
  "(k, v) \<in> set kvs \<Longrightarrow> size v < Suc (size_list (size_prod (\<lambda>_. 0) size) kvs)"
  by (induction kvs) auto

definition rowsSize :: "(string \<times> slimValue) list list \<Rightarrow> nat" where
  "rowsSize rows = size (VArr (map VObj rows))"

lemma map_VObj_objectEntries:
  "list_all isPlainObject arr \<Longrightarrow> map VObj (map objectEntries arr) = arr"
proof (induction arr)
  case Nil
  show ?case by simp
next
  case (Cons a arr)
  then show ?case by (cases a) simp_all
qed

lemma rowsSize_objectEntries:
  "list_all isPlainObject arr \<Longrightarrow> rowsSize (map objectEntries arr) = Suc (size_list size arr)"
  by (simp only: rowsSize_def map_VObj_objectEntries) simp

lemma size_arrayItems: "isArray y \<Longrightarrow> Suc (size_list size (arrayItems y)) = size y"
  by (cases y) simp_all

lemma getProp_mem: "getProp obj k \<noteq> VUndef \<Longrightarrow> (k, getProp obj k) \<in> set obj"
  by (auto simp: getProp_def split: option.splits dest: map_of_SomeD)

lemma size_row_elem:
  assumes "obj \<in> set rows" and "getProp obj k \<noteq> VUndef"
  shows "size (getProp obj k) + 2 \<le> rowsSize rows"
proof -
  have "size (getProp obj k) < size (VObj obj)"
    using size_obj_elem [OF getProp_mem [OF assms(2)]] by simp
  moreover have "VObj obj \<in> set (map VObj rows)"
    using assms(1) by simp
  then have "size (VObj obj) < Suc (size_list size (map VObj rows))"
    by (rule size_arr_elem)
  ultimately show ?thesis
    by (simp add: rowsSize_def)
qed

function encodeValue :: "slimValue \<Rightarrow> nat \<Rightarrow> encodeOptions \<Rightarrow> string"
  and encodeArray :: "slimValue list \<Rightarrow> nat \<Rightarrow> encodeOptions \<Rightarrow> string"
  and encodeObject :: "(string \<times> slimValue) list \<Rightarrow> nat \<Rightarrow> encodeOptions \<Rightarrow> string"
  and encodeTable :: "(string \<times> slimValue) list list \<Rightarrow> nat \<Rightarrow> encodeOptions \<Rightarrow> string"
where
  "encodeValue data depth opts =
     (if int depth > maxDepth opts then SLIM_DEEP
      else case data of
          VNull \<Rightarrow> SLIM_NULL
        | VUndef \<Rightarrow> SLIM_UNDEFINED
        | VBool b \<Rightarrow> (if b then SLIM_TRUE else SLIM_FALSE)
        | VNum n \<Rightarrow> encodeNumber n
        | VStr s \<Rightarrow> encodeString s
        | VArr arr \<Rightarrow> encodeArray arr depth opts
        | VObj obj \<Rightarrow> encodeObject obj depth opts)"
| "encodeArray arr depth opts =
     (if arr = [] then ''@[]''
      else if isMatrix arr then encodeMatrix arr
      else if list_all isNumber arr then ''@#['' @ join '','' (map jsString arr) @ '']''
      else if list_all (\<lambda>v. isString v \<and> \<not> testChars '',;[]'' (jsString v)) arr
        then ''@['' @ join '','' (map jsString arr) @ '']''
      else if int (length arr) \<ge> tableThreshold opts \<and> list_all isPlainObject arr
        then encodeTable (map objectEntries arr) depth opts
      else (let items = map (\<lambda>v. encodeValue v (depth + 1) opts) arr
            in ''@['' @ join '';'' items @ '']''))"
| "encodeObject obj depth opts =
     (if obj = [] then ''{}''
      else (let parts = map (\<lambda>(key, val).
                  if isArray val \<and> int (length (arrayItems val)) \<ge> tableThreshold opts
                       \<and> list_all isPlainObject (arrayItems val)
                  then quoteKey key @ '':'' @ encodeTable (map objectEntries (arrayItems val)) (depth + 1) opts
                  else quoteKey key @ '':'' @ encodeValue val (depth + 1) opts) obj
            in ''{'' @ join '','' parts @ ''}''))"
| "encodeTable rows depth opts =
     (let keys = uniqueKeys (concat (map (map fst) rows));
          schema = join '','' (map (\<lambda>k. k @ columnType rows k) keys);
          dataRows = map (\<lambda>obj. join '','' (map (\<lambda>k.
              let v = getProp obj k; type = columnType rows k in
              if v = VUndef \<or> v = VNull then []
              else if startsWith type ''?'' then (if truthy v then ''T'' else ''F'')
              else if startsWith type ''#'' then jsString v
              else if startsWith type ''@'' then encodeInlineArray (arrayItems v)
              else if startsWith type ''~'' then encodeValue v (depth + 1) opts
              else if isString v \<and> jsString v = [] then [dquote, dquote]
              else if isString v \<and> testChars ('','' @ [newline] @ ''|'' @ [dquote]) (jsString v)
                then [dquote] @ replaceAll newline [backslash, CHR ''n'']
                        (replaceAll dquote [dquote, dquote] (jsString v)) @ [dquote]
              else jsString v) keys)) rows
      in ''|'' @ natToString (length rows) @ ''|'' @ schema @ ''|'' @ [newline] @ join [newline] dataRows)"
  by pat_completeness auto


termination
proof (relation "measure (\<lambda>x. case x of
      Inl (Inl (v, d, opts)) \<Rightarrow> 2 * size v + 1
    | Inl (Inr (arr, d, opts)) \<Rightarrow> 2 * size (VArr arr)
    | Inr (Inl (obj, d, opts)) \<Rightarrow> 2 * size (VObj obj)
    | Inr (Inr (rows, d, opts)) \<Rightarrow> 2 * rowsSize rows - 1)", goal_cases)
  case 1
  show ?case by simp
next
  case 2
  then show ?case by simp
next
  case 3
  then show ?case by simp
next
  case (4 arr depth opts)
  then show ?case by (simp add: rowsSize_objectEntries)
next
  case (5 arr depth opts x)
  then show ?case using size_arr_elem [of x arr] by simp
next
  case (6 obj depth opts x xa y)
  then have "(xa, y) \<in> set obj" by simp
  from size_obj_elem [OF this] 6 show ?case
    by (simp add: rowsSize_objectEntries size_arrayItems)
next
  case (7 obj depth opts x xa y)
  then have "(xa, y) \<in> set obj" by simp
  from size_obj_elem [OF this] show ?case by simp
next
  case (8 rows depth opts x xa xaa xab xb xc)
  then have "size (getProp xaa xab) + 2 \<le> rowsSize rows"
    by (intro size_row_elem) simp_all
  with 8 show ?case by simp
qed

definition encode :: "slimValue \<Rightarrow> encodeOptions \<Rightarrow> string" where
  "encode data options = encodeValue data 0 options"

section \<open>Encoder: the table example\<close>

text \<open>
  C3: \<^verbatim>\<open>encode([{id:1,name:"Mario",active:true},{id:2,name:"Luigi",active:false}])\<close> under
  the default options is the header \<^verbatim>\<open>|2|id#,name$,active?|\<close>, a newline, the line
  \<^verbatim>\<open>1,Mario,T\<close>, a newline and the line \<^verbatim>\<open>2,Luigi,F\<close>, in that order.
\<close>

theorem encode_table_example:
  "encode (VArr [VObj [(''id'', VNum (Fin 1)), (''name'', VStr ''Mario''), (''active'', VBool True)],
                 VObj [(''id'', VNum (Fin 2)), (''name'', VStr ''Luigi''), (''active'', VBool False)]])
      DEFAULT_OPTIONS
   = ''|2|id#,name$,active?|'' @ [newline] @ ''1,Mario,T'' @ [newline] @ ''2,Luigi,F''"
  by code_simp

section \<open>Encoder: quoting of strings\<close>

text \<open>
  The quoting rule in the specification's words: the characters that force quotes, the
  escape of one character, and the quoted form of a string.
\<close>

definition escapeChar :: "char \<Rightarrow> string" where
  "escapeChar c = (if c = dquote then [dquote, dquote]
                   else if c = newline then [backslash, CHR ''n'']
                   else [c])"

definition quotedForm :: "string \<Rightarrow> string" where
  "quotedForm s = [dquote] @ concat (map escapeChar s) @ [dquote]"

definition mustQuote :: "string \<Rightarrow> bool" where
  "mustQuote s =
     (s = []
      \<or> list_ex (\<lambda>c. c \<in> {CHR '','', CHR '';'', newline, CHR ''|'', CHR ''{'', CHR ''}'', CHR ''['',
                         CHR '']'', dquote, CHR ''#'', CHR ''?'', CHR ''!'', CHR ''*'', CHR ''@''}) s
      \<or> (s \<noteq> [] \<and> (isWhiteSpace (hd s) \<or> isWhiteSpace (last s))))"

lemma replaceAll_append: "replaceAll c r (xs @ ys) = replaceAll c r xs @ replaceAll c r ys"
  by (simp add: replaceAll_def)

lemma replaceAll_Cons: "replaceAll c r (x # xs) = (if x = c then r else [x]) @ replaceAll c r xs"
  by (simp add: replaceAll_def)

lemma replaceAll_Nil: "replaceAll c r [] = []"
  by (simp add: replaceAll_def)

lemma escape_two_passes:
  "replaceAll newline [backslash, CHR ''n''] (replaceAll dquote [dquote, dquote] s)
     = concat (map escapeChar s)"
proof (induction s)
  case Nil
  show ?case by (simp add: replaceAll_Nil)
next
  case (Cons c s)
  have "dquote \<noteq> newline" by (simp add: dquote_def newline_def)
  with Cons show ?case
    by (simp add: replaceAll_Cons replaceAll_append escapeChar_def replaceAll_Nil)
qed

lemma trim_id_iff:
  "s = trim s \<longleftrightarrow> (s = [] \<or> (\<not> isWhiteSpace (hd s) \<and> \<not> isWhiteSpace (last s)))"
proof (cases "s = []")
  case True
  then show ?thesis by (simp add: trim_def)
next
  case False
  show ?thesis
  proof (cases "isWhiteSpace (hd s)")
    case True
    with False have "length (dropWhile isWhiteSpace s) < length s"
      by (cases s) (auto simp: less_Suc_eq_le length_dropWhile_le)
    moreover have "length (trim s) \<le> length (dropWhile isWhiteSpace s)"
      unfolding trim_def using length_dropWhile_le [of isWhiteSpace "rev (dropWhile isWhiteSpace s)"]
      by simp
    ultimately have "s \<noteq> trim s" by (metis not_less le_less_trans order_refl)
    with True False show ?thesis by simp
  next
    case hdn: False
    with False have d: "dropWhile isWhiteSpace s = s" by (cases s) auto
    show ?thesis
    proof (cases "isWhiteSpace (last s)")
      case True
      with False have "length (dropWhile isWhiteSpace (rev s)) < length (rev s)"
        by (cases "rev s") (auto simp: less_Suc_eq_le length_dropWhile_le last_rev hd_rev dest!: arg_cong [where f = hd])
      then have "length (trim s) < length s" by (simp add: trim_def d)
      then have "s \<noteq> trim s" by auto
      with True False show ?thesis by simp
    next
      case lastn: False
      with False have "dropWhile isWhiteSpace (rev s) = rev s"
        by (cases "rev s") (auto simp: hd_rev dest!: arg_cong [where f = hd])
      then show ?thesis using hdn lastn by (simp add: trim_def d)
    qed
  qed
qed

lemma structural_test:
  "testChars STRUCTURAL_CHARS s =
     list_ex (\<lambda>c. c \<in> {CHR '','', CHR '';'', newline, CHR ''|'', CHR ''{'', CHR ''}'', CHR ''['',
                         CHR '']'', dquote, CHR ''#'', CHR ''?'', CHR ''!'', CHR ''*'', CHR ''@''}) s"
  by (simp add: testChars_def STRUCTURAL_CHARS_def)

lemma encodeString_form: "encodeString s = (if mustQuote s then quotedForm s else s)"
proof (cases "s = []")
  case True
  then show ?thesis by (simp add: encodeString_def mustQuote_def quotedForm_def)
next
  case False
  have "(s \<noteq> trim s) = (isWhiteSpace (hd s) \<or> isWhiteSpace (last s))"
    using trim_id_iff [of s] False by auto
  with False show ?thesis
    unfolding encodeString_def mustQuote_def quotedForm_def Let_def structural_test escape_two_passes
    by simp
qed

text \<open>
  C5: \<^verbatim>\<open>encodeString\<close> quotes a string exactly when it is empty, contains one of
  \<^verbatim>\<open>, ; newline | { } [ ] " # ? ! * @\<close>, or starts or ends with whitespace. The quoted
  form doubles every double quote, writes every newline as backslash and \<^verbatim>\<open>n\<close>, and
  copies every other character. The empty string is encoded as two double quotes.
\<close>

theorem encodeString_quoting:
  "encodeString s = (if mustQuote s then quotedForm s else s) \<and> encodeString [] = [dquote, dquote]"
proof -
  have "encodeString [] = [dquote, dquote]" by (simp add: encodeString_def)
  with encodeString_form [of s] show ?thesis by simp
qed

section \<open>Encoder: choice of the array format\<close>

text \<open>
  The shapes of the specification's priority list, and the texts it assigns to them.
\<close>

fun numberOf :: "slimValue \<Rightarrow> jsnum" where
  "numberOf (VNum n) = n"
| "numberOf v = NaN"

fun isNumberList :: "slimValue \<Rightarrow> bool" where
  "isNumberList (VArr row) = list_all isNumber row"
| "isNumberList v = False"

fun isSimpleText :: "slimValue \<Rightarrow> bool" where
  "isSimpleText (VStr t) = (\<not> list_ex (\<lambda>c. c \<in> {CHR '','', CHR '';'', CHR ''['', CHR '']''}) t)"
| "isSimpleText v = False"

definition numbersText :: "slimValue list \<Rightarrow> string" where
  "numbersText ns = join '','' (map (\<lambda>v. numToString (numberOf v)) ns)"

definition matrixForm :: "slimValue list \<Rightarrow> string" where
  "matrixForm rows = ''*['' @ join '';'' (map (\<lambda>row. numbersText (arrayItems row)) rows) @ '']''"

definition numericListForm :: "slimValue list \<Rightarrow> string" where
  "numericListForm ns = ''@#['' @ numbersText ns @ '']''"

definition textListForm :: "slimValue list \<Rightarrow> string" where
  "textListForm ts = ''@['' @ join '','' (map (\<lambda>v. case v of VStr t \<Rightarrow> t | _ \<Rightarrow> []) ts) @ '']''"

definition mixedListForm :: "string list \<Rightarrow> string" where
  "mixedListForm items = ''@['' @ join '';'' items @ '']''"

lemma jsString_numbers:
  "list_all isNumber ns \<Longrightarrow> map jsString ns = map (\<lambda>v. numToString (numberOf v)) ns"
proof (induction ns)
  case Nil
  show ?case by simp
next
  case (Cons v ns)
  then show ?case by (cases v) simp_all
qed

lemma jsString_texts:
  "list_all isString ts \<Longrightarrow> map jsString ts = map (\<lambda>v. case v of VStr t \<Rightarrow> t | _ \<Rightarrow> []) ts"
proof (induction ts)
  case Nil
  show ?case by simp
next
  case (Cons v ts)
  then show ?case by (cases v) simp_all
qed

lemma isMatrix_iff: "isMatrix arr = list_all isNumberList arr"
proof -
  have "(isArray row \<and> list_all isNumber (arrayItems row)) = isNumberList row" for row
    by (cases row) simp_all
  then show ?thesis by (simp add: isMatrix_def)
qed

lemma encodeMatrix_form: "isMatrix arr \<Longrightarrow> encodeMatrix arr = matrixForm arr"
proof -
  assume "isMatrix arr"
  then have "\<forall>row \<in> set arr. list_all isNumber (arrayItems row)"
    by (simp add: isMatrix_def list_all_iff)
  then have "join '','' (map jsString (arrayItems row)) = numbersText (arrayItems row)"
    if "row \<in> set arr" for row
    using that by (simp add: numbersText_def jsString_numbers)
  then have "map (\<lambda>row. join '','' (map jsString (arrayItems row))) arr
           = map (\<lambda>row. numbersText (arrayItems row)) arr"
    by (rule map_cong [OF refl])
  then show ?thesis by (simp only: encodeMatrix_def matrixForm_def Let_def)
qed

lemma simpleText_iff:
  "(isString v \<and> \<not> testChars '',;[]'' (jsString v)) = isSimpleText v"
  by (cases v) (simp_all add: testChars_def)

lemma simpleText_all:
  "list_all (\<lambda>v. isString v \<and> \<not> testChars '',;[]'' (jsString v)) arr = list_all isSimpleText arr"
  by (simp add: simpleText_iff)

lemma simpleText_strings: "list_all isSimpleText arr \<Longrightarrow> list_all isString arr"
proof (induction arr)
  case Nil
  show ?case by simp
next
  case (Cons v arr)
  then show ?case by (cases v) simp_all
qed

text \<open>
  C4: for a non-empty list the encoder picks, in this order: the matrix form when every
  element is a list of numbers (of any lengths); the numeric list form when every element
  is a number; the simple text list form when every element is text without comma,
  semicolon or square bracket; the table form when there are at least
  \<^verbatim>\<open>tableThreshold\<close> elements and each is a plain record; and else the mixed form of the
  elements' own encodings one level deeper, joined by semicolons. The empty list is
  \<^verbatim>\<open>@[]\<close>. The depth guard of \<^verbatim>\<open>encodeValue\<close> does not fire at the top level when
  \<^verbatim>\<open>maxDepth\<close> is not negative.
\<close>

theorem encode_array_selection:
  assumes "0 \<le> maxDepth opts"
  shows "encode (VArr xs) opts =
    (if xs = [] then ''@[]''
     else if list_all isNumberList xs then matrixForm xs
     else if list_all isNumber xs then numericListForm xs
     else if list_all isSimpleText xs then textListForm xs
     else if tableThreshold opts \<le> int (length xs) \<and> list_all isPlainObject xs
       then encodeTable (map objectEntries xs) 0 opts
     else mixedListForm (map (\<lambda>v. encodeValue v 1 opts) xs))"
proof -
  have top: "encode (VArr xs) opts = encodeArray xs 0 opts"
    using assms by (simp add: encode_def)
  show ?thesis
  proof (cases "xs = []")
    case True
    then show ?thesis using top by simp
  next
    case ne: False
    show ?thesis
    proof (cases "list_all isNumberList xs")
      case True
      then show ?thesis
        using ne by (simp add: top isMatrix_iff encodeMatrix_form)
    next
      case nm: False
      show ?thesis
      proof (cases "list_all isNumber xs")
        case True
        then show ?thesis
          using ne nm by (simp add: top isMatrix_iff numericListForm_def numbersText_def jsString_numbers)
      next
        case nn: False
        show ?thesis
        proof (cases "list_all isSimpleText xs")
          case True
          then show ?thesis
            using ne nm nn
            by (simp add: top isMatrix_iff simpleText_all textListForm_def
                jsString_texts [OF simpleText_strings])
        next
          case False
          then show ?thesis
            using ne nm nn
            by (simp add: top isMatrix_iff simpleText_all mixedListForm_def)
        qed
      qed
    qed
  qed
qed

theorem encode_array_selection_witness:
  "0 \<le> maxDepth DEFAULT_OPTIONS
   \<and> encode (VArr [VArr [VNum (Fin 1), VNum (Fin 2)], VArr [VNum (Fin 3)]]) DEFAULT_OPTIONS = ''*[1,2;3]''
   \<and> encode (VArr [VNum (Fin 1), VStr ''a'']) DEFAULT_OPTIONS = ''@[#1;a]''"
proof -
  have h: "0 \<le> maxDepth DEFAULT_OPTIONS" by (simp add: DEFAULT_OPTIONS_def)
  have "encode (VArr [VArr [VNum (Fin 1), VNum (Fin 2)], VArr [VNum (Fin 3)]]) DEFAULT_OPTIONS
          = matrixForm [VArr [VNum (Fin 1), VNum (Fin 2)], VArr [VNum (Fin 3)]]"
    using encode_array_selection [OF h, of "[VArr [VNum (Fin 1), VNum (Fin 2)], VArr [VNum (Fin 3)]]"]
    by simp
  moreover have "matrixForm [VArr [VNum (Fin 1), VNum (Fin 2)], VArr [VNum (Fin 3)]] = ''*[1,2;3]''"
    by code_simp
  moreover have "encode (VArr [VNum (Fin 1), VStr ''a'']) DEFAULT_OPTIONS
          = mixedListForm (map (\<lambda>v. encodeValue v 1 DEFAULT_OPTIONS) [VNum (Fin 1), VStr ''a''])"
    using encode_array_selection [OF h, of "[VNum (Fin 1), VStr ''a'']"]
    by simp
  moreover have "mixedListForm (map (\<lambda>v. encodeValue v 1 DEFAULT_OPTIONS) [VNum (Fin 1), VStr ''a'']) = ''@[#1;a]''"
    by code_simp
  ultimately show ?thesis using h by simp
qed

section \<open>Schema utilities\<close>

text \<open>
  \<^verbatim>\<open>schema.ts\<close>. \<^verbatim>\<open>inferSchema\<close> repeats the column inference of \<^verbatim>\<open>encodeTable\<close> in
  its own code; it is translated on its own here, and compared with the encoder's below.
\<close>

definition inferSchema :: "(string \<times> slimValue) list list \<Rightarrow> string" where
  "inferSchema data =
     (if data = [] then []
      else
        (let keys = uniqueKeys (concat (map (map fst) data));
             colTypes = (\<lambda>key.
               let values = filter (\<lambda>v. v \<noteq> VUndef \<and> v \<noteq> VNull) (map (\<lambda>r. getProp r key) data);
                   t = (if values = [] then ''!''
                        else if list_all isBoolean values then ''?''
                        else if list_all isNumber values then ''#''
                        else if list_all isArray values then ''@''
                        else if list_all (\<lambda>v. typeofValue v = ''object'' \<and> \<not> isArray v) values
                          then ''~''
                        else ''$'')
               in if list_ex (\<lambda>r. getProp r key = VUndef \<or> getProp r key = VNull) data
                  then t @ ''!'' else t)
         in join '','' (map (\<lambda>k. k @ colTypes k) keys)))"

record ColumnDef =
  name :: string
  type :: string
  nullable :: bool

fun splitOn :: "char \<Rightarrow> string \<Rightarrow> string list" where
  "splitOn sep [] = [[]]"
| "splitOn sep (c # cs) =
     (if c = sep then [] # splitOn sep cs
      else (case splitOn sep cs of [] \<Rightarrow> [[c]] | piece # pieces \<Rightarrow> (c # piece) # pieces))"

definition isLineTerminator :: "char \<Rightarrow> bool" where
  "isLineTerminator c = (c = CHR 0x0A \<or> c = CHR 0x0D)"

definition isTypeMarker :: "char \<Rightarrow> bool" where
  "isTypeMarker c = (c \<in> set ''#?@~$'')"

fun markerSuffix :: "string \<Rightarrow> bool" where
  "markerSuffix [] = True"
| "markerSuffix [a] = (isTypeMarker a \<or> a = CHR ''!'')"
| "markerSuffix [a, b] = (isTypeMarker a \<and> b = CHR ''!'')"
| "markerSuffix r = False"

definition matchColumn :: "string \<Rightarrow> (string \<times> string option \<times> bool) option" where
  "matchColumn col =
     (case filter (\<lambda>n. \<not> list_ex isLineTerminator (take n col) \<and> markerSuffix (drop n col))
             [1 ..< Suc (length col)] of
        [] \<Rightarrow> None
      | n # _ \<Rightarrow>
          (let r = drop n col in
           Some (take n col,
                 (if r \<noteq> [] \<and> isTypeMarker (hd r) then Some [hd r] else None),
                 r \<noteq> [] \<and> last r = CHR ''!'')))"

definition parseSchema :: "string \<Rightarrow> ColumnDef list" where
  "parseSchema schema =
     (if schema = [] then []
      else map (\<lambda>col.
             case matchColumn col of
               None \<Rightarrow> \<lparr>name = col, type = ''$'', nullable = False\<rparr>
             | Some (n, t, b) \<Rightarrow>
                 \<lparr>name = n, type = (case t of None \<Rightarrow> ''$'' | Some m \<Rightarrow> m), nullable = b\<rparr>)
           (splitOn CHR '','' schema))"


lemma inferSchema_columnType:
  "inferSchema rows =
     (if rows = [] then []
      else join '','' (map (\<lambda>k. k @ columnType rows k) (uniqueKeys (concat (map (map fst) rows)))))"
  by (simp add: inferSchema_def columnType_def Let_def)

text \<open>
  C7: \<^verbatim>\<open>inferSchema\<close> of the empty list is the empty string, and the text of a table is
  \<^verbatim>\<open>|\<close>, the row count, \<^verbatim>\<open>|\<close>, exactly \<^verbatim>\<open>inferSchema\<close> of the same records,
  \<^verbatim>\<open>|\<close>, a newline, and the data rows.
\<close>

theorem inferSchema_is_table_schema:
  "inferSchema [] = []
   \<and> (\<exists>body. encodeTable rows depth opts
         = ''|'' @ natToString (length rows) @ ''|'' @ inferSchema rows @ ''|'' @ [newline] @ body)"
proof -
  have "inferSchema rows = join '','' (map (\<lambda>k. k @ columnType rows k) (uniqueKeys (concat (map (map fst) rows))))"
    by (cases "rows = []") (simp_all add: inferSchema_columnType uniqueKeys_def)
  then have "\<exists>body. encodeTable rows depth opts
         = ''|'' @ natToString (length rows) @ ''|'' @ inferSchema rows @ ''|'' @ [newline] @ body"
    by (simp add: Let_def)
  moreover have "inferSchema [] = []"
    by (simp add: inferSchema_def)
  ultimately show ?thesis by simp
qed

section \<open>Schema: parsing an inferred schema\<close>










lemma splitOn_nonempty: "splitOn sep s \<noteq> []"
  by (induction s) (auto split: list.splits)



















text \<open>
  The other two exclusions are needed as well: an empty key leaves the marker alone in its
  column, which is then read as a name; and the pattern of \<^verbatim>\<open>parseSchema\<close> does not match
  across a line break, so that the whole column text becomes the name.
\<close>

lemma parseSchema_inferSchema_empty_key:
  "parseSchema (inferSchema [[([], VNum (Fin 1))]]) = [\<lparr>name = ''#'', type = ''$'', nullable = False\<rparr>]"
  by code_simp

lemma parseSchema_inferSchema_line_break_key:
  "parseSchema (inferSchema [[([CHR ''a'', newline, CHR ''b''], VNum (Fin 1))]])
     = [\<lparr>name = [CHR ''a'', newline, CHR ''b'', CHR ''#''], type = ''$'', nullable = False\<rparr>]"
  by code_simp

section \<open>Schema: validation\<close>















lemma not_record_iff:
  "(typeofValue v \<noteq> ''object'' \<or> v = VNull \<or> isArray v) = (\<not> isPlainObject v)"
  by (cases v) simp_all





section \<open>Decoder\<close>

text \<open>
  \<^verbatim>\<open>SlimParser\<close> keeps the input and a cursor \<^verbatim>\<open>pos\<close> that only moves forward; every
  test reads the text from the cursor on. The model's parser state is that remaining text.
  A cursor past the end reads as the empty text, as \<^verbatim>\<open>substring\<close> does.

  A call of the parser either returns a value and the remaining text, or stops for one of
  three reasons. \<open>NeverEnds\<close>: a loop of the source that makes no progress is entered.
  \<open>OutOfFuel\<close>: the recursion and the loops that may run forever are bounded by a
  counter, and it ran out. \<open>NotModelled\<close>: the text holds a number with a fraction, an
  exponent or a value above \<open>2^53\<close>, outside the model's numbers.
\<close>

datatype stop = OutOfFuel | NeverEnds | NotModelled

type_synonym 'a parse = "stop + 'a \<times> string"

definition peek :: "string \<Rightarrow> string" where
  "peek s = take 1 s"

definition isEnd :: "string \<Rightarrow> bool" where
  "isEnd s = (s = [])"

definition match :: "string \<Rightarrow> string \<Rightarrow> bool \<times> string" where
  "match p s = (if take (length p) s = p then (True, drop (length p) s) else (False, s))"

definition skipWs :: "string \<Rightarrow> string" where
  "skipWs s = dropWhile (\<lambda>c. c = CHR '' '') s"

definition isDigit :: "char \<Rightarrow> bool" where
  "isDigit c = (c \<in> set ''0123456789'')"

definition isNumChar :: "char \<Rightarrow> bool" where
  "isNumChar c = (c \<in> set ''0123456789.eE+-'')"

definition digitValue :: "char \<Rightarrow> int" where
  "digitValue c = of_char c - 48"

definition digitsValue :: "string \<Rightarrow> int" where
  "digitsValue ds = foldl (\<lambda>a c. 10 * a + digitValue c) 0 ds"

text \<open>
  \<^verbatim>\<open>parseFloat\<close> of ECMAScript on the texts the decoder passes to it: an optional sign, then
  digits. No digits: \<open>NaN\<close>, unless a fraction \<^verbatim>\<open>.d\<close> follows. Digits followed by a point
  or an exponent letter, or a value above \<open>2^53\<close>, are outside the model (\<open>None\<close>).
  Minus zero is zero.
\<close>

definition parseFloat :: "string \<Rightarrow> jsnum option" where
  "parseFloat s =
     (let neg = (take 1 s = ''-'');
          s1 = (if take 1 s = ''-'' \<or> take 1 s = ''+'' then drop 1 s else s);
          ds = takeWhile isDigit s1;
          r = dropWhile isDigit s1
      in if ds = [] then
           (if take 1 r = ''.'' \<and> take 1 (drop 1 r) \<noteq> [] \<and> isDigit (hd (drop 1 r)) then None
            else Some NaN)
         else if r \<noteq> [] \<and> hd r \<in> set ''.eE'' then None
         else if digitsValue ds > 2 ^ 53 then None
         else Some (Fin (if neg then - digitsValue ds else digitsValue ds)))"

definition parseNull :: "string \<Rightarrow> slimValue \<times> string" where
  "parseNull s =
     (if fst (match ''null'' s) then (VNull, snd (match ''null'' s))
      else if fst (match ''undef'' s) then (VUndef, snd (match ''undef'' s))
      else if fst (match ''DEEP'' s) then (VNull, snd (match ''DEEP'' s))
      else (VNull, s))"

definition parseNumber :: "string \<Rightarrow> slimValue parse" where
  "parseNumber s =
     (if fst (match ''NaN'' s) then Inr (VNum NaN, snd (match ''NaN'' s))
      else if fst (match ''-Inf'' s) then Inr (VNum NegInf, snd (match ''-Inf'' s))
      else if fst (match ''Inf'' s) then Inr (VNum PosInf, snd (match ''Inf'' s))
      else (case parseFloat (takeWhile isNumChar s) of
              None \<Rightarrow> Inl NotModelled
            | Some x \<Rightarrow> Inr (VNum x, dropWhile isNumChar s)))"

text \<open>The loop of \<^verbatim>\<open>parseQuotedString\<close>, after the opening quote.\<close>

fun quotedLoop :: "string \<Rightarrow> string \<Rightarrow> string \<times> string" where
  "quotedLoop val [] = (val, [])"
| "quotedLoop val (c # cs) =
     (if c = dquote then
        (case cs of
           [] \<Rightarrow> (val, [])
         | d # ds \<Rightarrow> if d = dquote then quotedLoop (val @ [dquote]) ds else (val, cs))
      else if c = backslash \<and> take 1 cs = ''n'' then quotedLoop (val @ [newline]) (drop 1 cs)
      else quotedLoop (val @ [c]) cs)"

definition parseQuotedString :: "string \<Rightarrow> string \<times> string" where
  "parseQuotedString s = quotedLoop [] (drop 1 s)"

definition parseUnquoted :: "string \<Rightarrow> string \<times> string" where
  "parseUnquoted s =
     (takeWhile (\<lambda>c. c \<notin> set ('',;'' @ [newline] @ ''|{}[]'')) s,
      dropWhile (\<lambda>c. c \<notin> set ('',;'' @ [newline] @ ''|{}[]'')) s)"

text \<open>
  The loop of \<^verbatim>\<open>parseMatrix\<close>. It ends: every branch but the \<^verbatim>\<open>break\<close> consumes a
  character. The result is the rows, the open row and the remaining text.
\<close>

definition isMatrixNumStart :: "char \<Rightarrow> bool" where
  "isMatrixNumStart c = (c \<in> set ''0123456789.-'')"

lemma length_dropWhile_less [termination_simp]: "length (dropWhile P xs) < Suc (length xs)"
  by (simp add: length_dropWhile_le less_Suc_eq_le)

fun matrixLoop :: "jsnum list list \<Rightarrow> jsnum list \<Rightarrow> string \<Rightarrow> stop + (jsnum list list \<times> jsnum list \<times> string)" where
  "matrixLoop rows currentRow [] = Inr (rows, currentRow, [])"
| "matrixLoop rows currentRow (c # cs) =
     (if c = CHR '']'' then Inr (rows, currentRow, c # cs)
      else if c = CHR '';'' then
        matrixLoop (if length currentRow > 0 then rows @ [currentRow] else rows) [] cs
      else if c = CHR '','' then matrixLoop rows currentRow cs
      else if isMatrixNumStart c then
        (case parseFloat (c # takeWhile isNumChar cs) of
           None \<Rightarrow> Inl NotModelled
         | Some x \<Rightarrow> matrixLoop rows (currentRow @ [x]) (dropWhile isNumChar cs))
      else Inr (rows, currentRow, c # cs))"

definition parseMatrix :: "string \<Rightarrow> slimValue parse" where
  "parseMatrix s =
     (if \<not> fst (match ''['' s) then Inr (VArr [], s)
      else (case matrixLoop [] [] (snd (match ''['' s)) of
              Inl e \<Rightarrow> Inl e
            | Inr (rows, currentRow, s') \<Rightarrow>
                (let rows' = (if length currentRow > 0 then rows @ [currentRow] else rows)
                 in Inr (VArr (map (\<lambda>row. VArr (map VNum row)) rows'), snd (match '']'' s')))))"

text \<open>
  The two header loops of \<^verbatim>\<open>parseTable\<close>: \<^verbatim>\<open>while (this.peek() !== '|') str += this.consume()\<close>.
  There is no test for the end of the input, where \<^verbatim>\<open>peek\<close> is the empty text: the loop
  may run forever, and not returning is \<open>None\<close>.
\<close>

partial_function (option) readUntilBar :: "string \<Rightarrow> string \<Rightarrow> (string \<times> string) option" where
  "readUntilBar str s =
     (if peek s \<noteq> ''|'' then readUntilBar (str @ peek s) (drop 1 s) else Some (str, s))"

declare readUntilBar.simps [code]

definition isTableMarker :: "char \<Rightarrow> bool" where
  "isTableMarker c = (c \<in> set ''#?@~$!'')"

text \<open>A column of the header, by the pattern \<^verbatim>\<open>/^(.+?)([#?@~$!]*)$/\<close>: name and type.\<close>

definition tableColumn :: "string \<Rightarrow> string \<times> string" where
  "tableColumn col =
     (case filter (\<lambda>n. \<not> list_ex isLineTerminator (take n col) \<and> list_all isTableMarker (drop n col))
             [1 ..< Suc (length col)] of
        [] \<Rightarrow> (col, [])
      | n # _ \<Rightarrow> (take n col, drop n col))"

text \<open>\<^verbatim>\<open>obj[key] = value\<close>: an existing key keeps its place.\<close>

fun setProp :: "(string \<times> slimValue) list \<Rightarrow> string \<Rightarrow> slimValue \<Rightarrow> (string \<times> slimValue) list" where
  "setProp [] key v = [(key, v)]"
| "setProp ((k, x) # obj) key v = (if k = key then (k, v) # obj else (k, x) # setProp obj key v)"

definition isNumericPiece :: "string \<Rightarrow> bool" where
  "isNumericPiece x =
     (let x1 = (if take 1 x = ''-'' then drop 1 x else x);
          r = dropWhile isDigit x1
      in takeWhile isDigit x1 \<noteq> [] \<and> (r = [] \<or> (hd r = CHR ''.'' \<and> list_all isDigit (tl r))))"

fun sequenceOpt :: "'a option list \<Rightarrow> 'a list option" where
  "sequenceOpt [] = Some []"
| "sequenceOpt (x # xs) =
     (case x of None \<Rightarrow> None
      | Some y \<Rightarrow> (case sequenceOpt xs of None \<Rightarrow> None | Some ys \<Rightarrow> Some (y # ys)))"

text \<open>The value of an array cell of a table row, from its text.\<close>

definition arrayCell :: "string \<Rightarrow> stop + slimValue" where
  "arrayCell arrStr =
     (if arrStr = ''[]'' then Inr (VArr [])
      else (let elements = filter (\<lambda>x. x \<noteq> []) (splitOn CHR ''+'' arrStr) in
            if list_all isNumericPiece elements then
              (case sequenceOpt (map parseFloat elements) of
                 None \<Rightarrow> Inl NotModelled
               | Some xs \<Rightarrow> Inr (VArr (map VNum xs)))
            else Inr (VArr (map VStr elements))))"

definition isCellStop :: "char \<Rightarrow> bool" where
  "isCellStop c = (c \<in> set ('','' @ [newline] @ ''}''))"

text \<open>The end of one column's iteration: what is stored in the record of the row.\<close>

definition storeCell :: "(string \<times> slimValue) list \<Rightarrow> string \<times> string \<Rightarrow> slimValue \<Rightarrow> (string \<times> slimValue) list" where
  "storeCell obj col val =
     (if val \<noteq> VUndef \<and> val \<noteq> VNull \<and> val \<noteq> VStr [] then setProp obj (fst col) val
      else if CHR ''!'' \<in> set (snd col) \<and> val = VNull then setProp obj (fst col) VNull
      else obj)"

text \<open>
  The recursive descent. \<^verbatim>\<open>parseValue\<close> calls itself through the arrays, objects and
  tables it meets; in the model the loops take \<open>pv\<close>, the parser for the values inside,
  and \<^verbatim>\<open>parseValue\<close> with counter \<open>n + 1\<close> passes them \<^verbatim>\<open>parseValue\<close> with counter \<open>n\<close>.
  The loops that may make no progress count their iterations down as well.
\<close>

definition skipSeparator :: "string \<Rightarrow> string" where
  "skipSeparator s = (if peek s = '','' \<or> peek s = '';'' then drop 1 s else s)"

primrec arrayLoop ::
  "(string \<Rightarrow> slimValue parse) \<Rightarrow> nat \<Rightarrow> bool \<Rightarrow> slimValue list \<Rightarrow> string \<Rightarrow> slimValue list parse"
where
  "arrayLoop pv 0 isNumeric items s = Inl OutOfFuel"
| "arrayLoop pv (Suc k) isNumeric items s =
     (if \<not> isEnd s \<and> peek s \<noteq> '']'' then
        (if isNumeric then
           (let num = takeWhile isNumChar s;
                s1 = dropWhile isNumChar s
            in if num \<noteq> [] then
                 (case parseFloat num of
                    None \<Rightarrow> Inl NotModelled
                  | Some x \<Rightarrow> arrayLoop pv k isNumeric (items @ [VNum x]) (skipSeparator s1))
               else arrayLoop pv k isNumeric items (skipSeparator s1))
         else
           (case pv s of
              Inl e \<Rightarrow> Inl e
            | Inr (v, s1) \<Rightarrow> arrayLoop pv k isNumeric (items @ [v]) (skipSeparator s1)))
      else Inr (items, s))"

definition parseArray :: "(string \<Rightarrow> slimValue parse) \<Rightarrow> nat \<Rightarrow> string \<Rightarrow> slimValue parse" where
  "parseArray pv n s0 =
     (let isNumeric = (peek s0 = ''#'');
          s1 = (if isNumeric then drop 1 s0 else s0)
      in if \<not> fst (match ''['' s1) then Inr (VArr [], s1)
         else (let s2 = snd (match ''['' s1) in
               if peek s2 = '']'' then Inr (VArr [], drop 1 s2)
               else (case arrayLoop pv n isNumeric [] s2 of
                       Inl e \<Rightarrow> Inl e
                     | Inr (items, s3) \<Rightarrow> Inr (VArr items, snd (match '']'' s3)))))"

definition parseKey :: "string \<Rightarrow> string \<times> string" where
  "parseKey s =
     (let quoted = (if peek s = [dquote] then parseQuotedString s else ([], s))
      in if fst quoted = [] then
           (takeWhile (\<lambda>c. c \<notin> set '':,{}'') (snd quoted),
            dropWhile (\<lambda>c. c \<notin> set '':,{}'') (snd quoted))
         else quoted)"

primrec objectLoop ::
  "(string \<Rightarrow> slimValue parse) \<Rightarrow> nat \<Rightarrow> (string \<times> slimValue) list \<Rightarrow> string
     \<Rightarrow> (string \<times> slimValue) list parse"
where
  "objectLoop pv 0 obj s = Inl OutOfFuel"
| "objectLoop pv (Suc k) obj s =
     (if \<not> isEnd s \<and> peek s \<noteq> ''}'' then
        (case parseKey (skipWs s) of (key, s1) \<Rightarrow>
           (case pv (snd (match '':'' s1)) of
              Inl e \<Rightarrow> Inl e
            | Inr (v, s2) \<Rightarrow>
                objectLoop pv k (setProp obj key v) (if peek s2 = '','' then drop 1 s2 else s2)))
      else Inr (obj, s))"

definition parseObject :: "(string \<Rightarrow> slimValue parse) \<Rightarrow> nat \<Rightarrow> string \<Rightarrow> slimValue parse" where
  "parseObject pv n s =
     (case objectLoop pv n [] (snd (match ''{'' s)) of
        Inl e \<Rightarrow> Inl e
      | Inr (obj, s') \<Rightarrow> Inr (VObj obj, snd (match ''}'' s')))"

text \<open>
  One cell of a table row: the chain of tests inside the \<^verbatim>\<open>for\<close> loop of
  \<^verbatim>\<open>parseTable\<close>, for the column \<open>col = (name, type)\<close>.
\<close>

definition parseCell :: "(string \<Rightarrow> slimValue parse) \<Rightarrow> string \<times> string \<Rightarrow> string \<Rightarrow> slimValue parse" where
  "parseCell pv col s =
     (if peek s = '','' \<or> peek s = [newline] \<or> isEnd s \<or> peek s = ''}'' then
        Inr (if CHR ''!'' \<in> set (snd col) then VNull else VUndef, s)
      else if peek s = [dquote] then
        (case parseQuotedString s of (val, s') \<Rightarrow> Inr (VStr val, s'))
      else if startsWith (snd col) ''#'' then
        (if takeWhile isNumChar s \<noteq> [] then
           (case parseFloat (takeWhile isNumChar s) of
              None \<Rightarrow> Inl NotModelled
            | Some x \<Rightarrow> Inr (VNum x, dropWhile isNumChar s))
         else Inr (VNull, dropWhile isNumChar s))
      else if startsWith (snd col) ''?'' then Inr (VBool (peek s = ''T''), drop 1 s)
      else if startsWith (snd col) ''@'' then
        (case arrayCell (takeWhile (\<lambda>c. \<not> isCellStop c) s) of
           Inl e \<Rightarrow> Inl e
         | Inr v \<Rightarrow> Inr (v, dropWhile (\<lambda>c. \<not> isCellStop c) s))
      else if startsWith (snd col) ''~'' then pv s
      else if peek s = [dquote] then
        (case parseQuotedString s of (val, s') \<Rightarrow> Inr (VStr val, s'))
      else Inr (VStr (takeWhile (\<lambda>c. \<not> isCellStop c) s), dropWhile (\<lambda>c. \<not> isCellStop c) s))"

text \<open>The \<^verbatim>\<open>for\<close> loop over the columns, from column \<open>i\<close> on.\<close>

primrec cellsLoop ::
  "(string \<Rightarrow> slimValue parse) \<Rightarrow> (string \<times> string) list \<Rightarrow> nat \<Rightarrow> (string \<times> slimValue) list \<Rightarrow> string
     \<Rightarrow> (string \<times> slimValue) list parse"
where
  "cellsLoop pv [] i obj s = Inr (obj, s)"
| "cellsLoop pv (col # columns) i obj s =
     (case parseCell pv col (if i > 0 \<and> peek s = '','' then drop 1 s else s) of
        Inl e \<Rightarrow> Inl e
      | Inr (val, s1) \<Rightarrow> cellsLoop pv columns (i + 1) (storeCell obj col val) s1)"

definition isRowStop :: "string \<Rightarrow> bool" where
  "isRowStop s = (peek s = ''}'' \<or> peek s = '','' \<or> peek s = '']'')"

primrec rowsLoop ::
  "(string \<Rightarrow> slimValue parse) \<Rightarrow> nat \<Rightarrow> (string \<times> string) list \<Rightarrow> (string \<times> slimValue) list list
     \<Rightarrow> string \<Rightarrow> (string \<times> slimValue) list list parse"
where
  "rowsLoop pv 0 columns rows s = Inl OutOfFuel"
| "rowsLoop pv (Suc k) columns rows s =
     (if \<not> isEnd s then
        (let s1 = (if peek s = [newline] then drop 1 s else s) in
         if isEnd s1 \<or> isRowStop s1 then Inr (rows, s1)
         else (case cellsLoop pv columns 0 [] s1 of
                 Inl e \<Rightarrow> Inl e
               | Inr (obj, s2) \<Rightarrow>
                   if peek s2 = [newline] then rowsLoop pv k columns (rows @ [obj]) (drop 1 s2)
                   else if \<not> isRowStop s2 \<and> \<not> isEnd s2 then Inr (rows @ [obj], s2)
                   else rowsLoop pv k columns (rows @ [obj]) s2))
      else Inr (rows, s))"

definition parseTable :: "(string \<Rightarrow> slimValue parse) \<Rightarrow> nat \<Rightarrow> string \<Rightarrow> slimValue parse" where
  "parseTable pv n s0 =
     (case readUntilBar [] (snd (match ''|'' s0)) of
        None \<Rightarrow> Inl NeverEnds
      | Some (countStr, s1) \<Rightarrow>
          (case readUntilBar [] (snd (match ''|'' s1)) of
             None \<Rightarrow> Inl NeverEnds
           | Some (schemaStr, s2) \<Rightarrow>
               (let columns = map tableColumn (splitOn CHR '','' schemaStr) in
                case rowsLoop pv n columns [] (snd (match ''|'' s2)) of
                  Inl e \<Rightarrow> Inl e
                | Inr (rows, s3) \<Rightarrow> Inr (VArr (map VObj rows), s3))))"

definition dispatch :: "(string \<Rightarrow> slimValue parse) \<Rightarrow> nat \<Rightarrow> string \<Rightarrow> slimValue parse" where
  "dispatch pv n s0 =
     (let s = skipWs s0 in
      if isEnd s then Inr (VUndef, s)
      else if peek s = ''!'' then Inr (parseNull (drop 1 s))
      else if peek s = ''?'' then Inr (VBool (peek (drop 1 s) = ''T''), drop 1 (drop 1 s))
      else if peek s = ''#'' then parseNumber (drop 1 s)
      else if peek s = ''@'' then parseArray pv n (drop 1 s)
      else if peek s = ''*'' then parseMatrix (drop 1 s)
      else if peek s = ''{'' then parseObject pv n s
      else if peek s = ''|'' then parseTable pv n s
      else if peek s = [dquote] then
        (case parseQuotedString s of (val, s') \<Rightarrow> Inr (VStr val, s'))
      else (case parseUnquoted s of (val, s') \<Rightarrow> Inr (VStr val, s')))"

primrec parseValue :: "nat \<Rightarrow> string \<Rightarrow> slimValue parse" where
  "parseValue 0 = (\<lambda>s. Inl OutOfFuel)"
| "parseValue (Suc n) = dispatch (parseValue n) n"

definition decode :: "nat \<Rightarrow> string \<Rightarrow> stop + slimValue" where
  "decode n slim = (case parseValue n slim of Inl e \<Rightarrow> Inl e | Inr (v, rest) \<Rightarrow> Inr v)"

section \<open>Decoder: the header loops of a table\<close>

lemma peek_Nil: "peek [] = []"
  by (simp add: peek_def)

lemma peek_Cons: "peek (c # cs) = [c]"
  by (simp add: peek_def)

lemma readUntilBar_returns_bar:
  assumes "readUntilBar str s = Some y"
  shows "CHR ''|'' \<in> set s"
proof (rule readUntilBar.raw_induct [where P = "\<lambda>str s y. CHR ''|'' \<in> set s", OF _ assms])
  fix loop :: "string \<Rightarrow> string \<Rightarrow> (string \<times> string) option" and str s y
  assume IH: "\<And>s b y. loop s b = Some y \<Longrightarrow> CHR ''|'' \<in> set b"
  assume step: "(if peek s \<noteq> ''|'' then loop (str @ peek s) (drop 1 s) else Some (str, s)) = Some y"
  show "CHR ''|'' \<in> set s"
  proof (cases s)
    case Nil
    with step have "loop str [] = Some y" by (simp add: peek_Nil)
    then show ?thesis using IH by fastforce
  next
    case (Cons c cs)
    show ?thesis
    proof (cases "c = CHR ''|''")
      case True
      with Cons show ?thesis by simp
    next
      case False
      with step Cons have "loop (str @ [c]) cs = Some y"
        by (simp add: peek_Cons)
      then have "CHR ''|'' \<in> set cs" by (rule IH)
      with Cons show ?thesis by simp
    qed
  qed
qed

lemma readUntilBar_no_bar: "CHR ''|'' \<notin> set s \<Longrightarrow> readUntilBar str s = None"
  using readUntilBar_returns_bar [of str s] by (cases "readUntilBar str s") auto

lemma readUntilBar_before_bar:
  "CHR ''|'' \<notin> set c \<Longrightarrow> readUntilBar str (c @ CHR ''|'' # rest) = Some (str @ c, CHR ''|'' # rest)"
proof (induction c arbitrary: str)
  case Nil
  show ?case by (subst readUntilBar.simps) (simp add: peek_Cons)
next
  case (Cons x c)
  then have "readUntilBar (str @ [x]) (c @ CHR ''|'' # rest) = Some ((str @ [x]) @ c, CHR ''|'' # rest)"
    by simp
  with Cons.prems show ?case
    by (subst readUntilBar.simps) (auto simp: peek_Cons)
qed

text \<open>
  C2 says that \<^verbatim>\<open>decode\<close> returns on every input, also on a table header whose closing
  \<^verbatim>\<open>|\<close> is missing. On the input \<^verbatim>\<open>|\<close> the first header loop of \<^verbatim>\<open>parseTable\<close> is
  entered at the end of the input and never left: no counter makes \<^verbatim>\<open>decode\<close> return.
\<close>

theorem decode_bar_never_returns:
  "decode n ''|'' \<noteq> Inr v \<and> decode (Suc n) ''|'' = Inl NeverEnds"
proof -
  have "readUntilBar [] [] = None"
    by (rule readUntilBar_no_bar) simp
  then have "parseTable pv k ''|'' = Inl NeverEnds" for pv k
    by (simp add: parseTable_def match_def)
  then have suc: "decode (Suc k) ''|'' = Inl NeverEnds" for k
    by (simp add: decode_def dispatch_def skipWs_def isEnd_def peek_def)
  have "decode n ''|'' \<noteq> Inr v"
  proof (cases n)
    case 0
    then show ?thesis by (simp add: decode_def)
  next
    case (Suc k)
    then show ?thesis by (simp add: suc)
  qed
  with suc show ?thesis by simp
qed

text \<open>
  The loop of \<^verbatim>\<open>parseArray\<close> has the same defect for an element that consumes nothing:
  a numeric list with \<^verbatim>\<open>NaN\<close>, which is what \<^verbatim>\<open>encode([NaN])\<close> writes, is never left.
\<close>

lemma arrayLoop_NaN_stuck: "arrayLoop pv k True items ''NaN]'' = Inl OutOfFuel"
proof (induction k)
  case 0
  show ?case by simp
next
  case (Suc k)
  have "takeWhile isNumChar ''NaN]'' = []" "dropWhile isNumChar ''NaN]'' = ''NaN]''"
    by (simp_all add: isNumChar_def)
  with Suc show ?case
    by (simp add: isEnd_def peek_def skipSeparator_def)
qed

lemma decode_NaN_list_never_returns:
  "encode (VArr [VNum NaN]) DEFAULT_OPTIONS = ''@#[NaN]'' \<and> decode n ''@#[NaN]'' = Inl OutOfFuel"
proof -
  have e: "encode (VArr [VNum NaN]) DEFAULT_OPTIONS = ''@#[NaN]''"
    by code_simp
  have "decode n ''@#[NaN]'' = Inl OutOfFuel"
  proof (cases n)
    case 0
    then show ?thesis by (simp add: decode_def)
  next
    case (Suc k)
    then show ?thesis
      by (simp add: decode_def dispatch_def skipWs_def isEnd_def peek_def parseArray_def match_def
          arrayLoop_NaN_stuck [unfolded peek_def])
  qed
  with e show ?thesis by simp
qed

section \<open>Decoder: the declared row count\<close>

text \<open>
  C9: the text between the first and the second \<^verbatim>\<open>|\<close> of a table header is read and
  dropped. Two inputs that differ only there are parsed alike, by \<^verbatim>\<open>parseTable\<close> wherever
  it is called (the same result and the same remaining text, or the same failure to
  return) and by \<^verbatim>\<open>decode\<close> for a table at the top level.
\<close>

theorem row_count_ignored:
  assumes "CHR ''|'' \<notin> set c1" and "CHR ''|'' \<notin> set c2"
  shows "parseTable pv n (''|'' @ c1 @ ''|'' @ rest) = parseTable pv n (''|'' @ c2 @ ''|'' @ rest)
       \<and> decode n (''|'' @ c1 @ ''|'' @ rest) = decode n (''|'' @ c2 @ ''|'' @ rest)"
proof -
  have header: "parseTable pv k (''|'' @ c @ ''|'' @ rest) = parseTable pv k (''||'' @ rest)"
    if "CHR ''|'' \<notin> set c" for c pv k
    using readUntilBar_before_bar [OF that, of "[]" rest] readUntilBar_before_bar [of "[]" "[]" rest]
    by (simp add: parseTable_def match_def)
  have top: "decode k (''|'' @ c @ ''|'' @ rest) = decode k (''||'' @ rest)"
    if "CHR ''|'' \<notin> set c" for c k
  proof (cases k)
    case 0
    then show ?thesis by (simp add: decode_def)
  next
    case (Suc m)
    then show ?thesis
      using header [OF that, of "parseValue m" m]
      by (simp add: decode_def dispatch_def skipWs_def isEnd_def peek_def)
  qed
  show ?thesis
    using header [OF assms(1)] header [OF assms(2)] top [OF assms(1)] top [OF assms(2)] by simp
qed

theorem row_count_ignored_witness:
  "CHR ''|'' \<notin> set ''2'' \<and> CHR ''|'' \<notin> set ''30''
   \<and> decode 3 (''|'' @ ''2'' @ ''|'' @ ''id#|'' @ [newline] @ ''7'')
     = decode 3 (''|'' @ ''30'' @ ''|'' @ ''id#|'' @ [newline] @ ''7'')
   \<and> decode 3 (''|'' @ ''30'' @ ''|'' @ ''id#|'' @ [newline] @ ''7'') = Inr (VArr [VObj [(''id'', VNum (Fin 7))]])"
proof -
  have h1: "CHR ''|'' \<notin> set ''2''" and h2: "CHR ''|'' \<notin> set ''30''" by simp_all
  have v: "decode 3 (''|'' @ ''30'' @ ''|'' @ ''id#|'' @ [newline] @ ''7'') = Inr (VArr [VObj [(''id'', VNum (Fin 7))]])"
    by code_simp
  from row_count_ignored [OF h1 h2, of "parseValue 0" 3 "''id#|'' @ [newline] @ ''7''"] v h1 h2
  show ?thesis by simp
qed

section \<open>Decoder: the cells of a table row\<close>

text \<open>
  The rule for one column of a row in the specification's words: when the cell is empty,
  whether the column is nullable, and when the field is left out of the record.
\<close>

definition emptyCell :: "string \<Rightarrow> bool" where
  "emptyCell s = (s = [] \<or> hd s = CHR '','' \<or> hd s = newline \<or> hd s = CHR ''}'')"

definition nullableColumn :: "string \<times> string \<Rightarrow> bool" where
  "nullableColumn col = (CHR ''!'' \<in> set (snd col))"


lemma emptyCell_peek:
  "emptyCell s = (peek s = '','' \<or> peek s = [newline] \<or> isEnd s \<or> peek s = ''}'')"
  by (cases s) (auto simp: emptyCell_def peek_def isEnd_def)

lemma parseCell_empty:
  "emptyCell s \<Longrightarrow> parseCell pv col s = Inr (if nullableColumn col then VNull else VUndef, s)"
  unfolding emptyCell_peek by (simp add: parseCell_def nullableColumn_def)


lemma map_of_setProp_other: "k \<noteq> key \<Longrightarrow> map_of (setProp obj key v) k = map_of obj k"
  by (induction obj key v rule: setProp.induct) auto


text \<open>
  The rule inside the loop over the columns: with an empty cell, the loop goes on with the
  record unchanged (column not nullable) or with a null entry (nullable column).
\<close>

lemma cellsLoop_empty_cell:
  assumes "emptyCell (if i > 0 \<and> peek s = '','' then drop 1 s else s)"
  shows "cellsLoop pv (col # columns) i obj s =
           cellsLoop pv columns (i + 1)
             (if nullableColumn col then setProp obj (fst col) VNull else obj)
             (if i > 0 \<and> peek s = '','' then drop 1 s else s)"
  using assms
  by (simp add: parseCell_empty storeCell_def nullableColumn_def)

text \<open>
  On the table \<^verbatim>\<open>|1|id#,a$!,b$|\<close> with the row \<^verbatim>\<open>1,,\<close>: the empty cell of the nullable
  column \<^verbatim>\<open>a\<close> is kept as null, the empty cell of \<^verbatim>\<open>b\<close> is left out.
\<close>

lemma decode_empty_cells_example:
  "decode 3 (''|1|id#,a$!,b$|'' @ [newline] @ ''1,,'') = Inr (VArr [VObj [(''id'', VNum (Fin 1)), (''a'', VNull)]])"
  by code_simp


section \<open>Round trip\<close>


lemma size_getProp [termination_simp]:
  "size (getProp obj key) < Suc (size_list (\<lambda>x. Suc (size (snd x))) obj)"
  by (induction obj) (auto simp: getProp_def)

lemma size_zip_left [termination_simp]:
  "(x, y) \<in> set (zip xs ys) \<Longrightarrow> size x < Suc (size_list size xs)"
  by (rule size_arr_elem) (erule set_zip_leftD)


subsection \<open>Numbers\<close>














subsection \<open>Text\<close>











subsection \<open>Scalars that survive the round trip\<close>













subsection \<open>The loops over encoded elements\<close>








subsection \<open>The loop over the entries of a record\<close>







subsection \<open>Values that survive the round trip\<close>















subsection \<open>Lists and records, one level\<close>










subsection \<open>The texts the encoder writes for the surviving shapes\<close>









subsection \<open>The round trip\<close>



declare encodeValue.simps [simp del]






text \<open>
  Further inputs on which the round trip fails. A quoted text with backslash and \<^verbatim>\<open>n\<close>
  comes back with a newline; a table whose later row starts with an empty cell loses that
  row; a text cell keeps a number as text.
\<close>

lemma decode_encode_backslash_n:
  "decode 1 (encode (VStr [CHR ''a'', backslash, CHR ''n'', CHR '','']) DEFAULT_OPTIONS)
     = Inr (VStr [CHR ''a'', newline, CHR '',''])"
  by code_simp

lemma decode_encode_sparse_table:
  "decode 3 (encode (VArr [VObj [(''a'', VNum (Fin 1))], VObj [(''b'', VNum (Fin 2))]]) DEFAULT_OPTIONS)
     = Inr (VArr [VObj [(''a'', VNum (Fin 1)), (''b'', VNull)]])"
  by code_simp

lemma decode_encode_mixed_column:
  "decode 4 (encode (VArr [VObj [(''a'', VNum (Fin 1))], VObj [(''a'', VStr ''x'')]]) DEFAULT_OPTIONS)
     = Inr (VArr [VObj [(''a'', VStr ''1'')], VObj [(''a'', VStr ''x'')]])"
  by code_simp

end
